theory Spec2Isabelle
  imports Main
begin

section \<open>Data model of \<^verbatim>\<open>src/es.js\<close>\<close>

text \<open>
  JavaScript values that reach the fields of an \<^verbatim>\<open>Idea\<close>: \<^verbatim>\<open>undefined\<close>, a number
  (identifiers and tag ids are integers below \<open>10^21\<close> in magnitude, which print in plain
  decimal) or a string.
\<close>

datatype jsval = JUndefined | JNum int | JStr string

datatype error = TypeError

text \<open>
  The \<^verbatim>\<open>type\<close> string of an event selects the handler \<^verbatim>\<open>this['apply' + event.type]\<close>.
  \<open>UnknownType\<close> stands for every other type string for which that property is not a
  function, so that the call throws (the empty type string, which names \<^verbatim>\<open>apply\<close>
  itself, is left out).
\<close>

datatype etype =
    IdeaWasCreated
  | IdeaTitleWasChanged
  | TagWasAddedToAnIdea
  | FailedThatIdeaTitleWasChanged
  | FailedThatTagWasAddedToAnIdea
  | UnknownType

text \<open>The \<^verbatim>\<open>data\<close> object of an event; a property it lacks reads as \<^verbatim>\<open>undefined\<close>.\<close>

record edata =
  d_ideaId :: jsval
  d_title :: jsval
  d_description :: jsval
  d_tagId :: jsval

text \<open>
  An event. \<open>data = None\<close> is an event without a \<^verbatim>\<open>data\<close> property (reading a property
  of it throws), \<open>correlationId = None\<close> one without a \<^verbatim>\<open>correlationId\<close>. Correlation ids
  are strings, so \<^verbatim>\<open>==\<close> between two of them (either possibly \<^verbatim>\<open>undefined\<close>) is
  equality on \<open>string option\<close>.
\<close>

record event =
  etype :: etype
  data :: "edata option"
  correlationId :: "string option"

text \<open>
  The object literal built by \<^verbatim>\<open>createSnapshot\<close>: its properties are \<^verbatim>\<open>id\<close>,
  \<^verbatim>\<open>title\<close>, \<^verbatim>\<open>description\<close> and \<^verbatim>\<open>tags\<close>. It has no property \<^verbatim>\<open>ideaId\<close>.
\<close>

record snapshot_obj =
  snap_id :: jsval
  snap_title :: jsval
  snap_description :: jsval
  snap_tags :: "jsval list"

record idea =
  snapshot :: "snapshot_obj option"
  eventsSinceSnapshot :: "event list"
  uncommittedEvents :: "event list"
  ideaId :: jsval
  title :: jsval
  description :: jsval
  tags :: "jsval list"

text \<open>\<^verbatim>\<open>new Idea(ideaId, title, description)\<close>\<close>

definition Idea :: "jsval \<Rightarrow> jsval \<Rightarrow> jsval \<Rightarrow> idea" where
  "Idea i t d =
     \<lparr>snapshot = None, eventsSinceSnapshot = [], uncommittedEvents = [],
      ideaId = i, title = t, description = d, tags = []\<rparr>"

section \<open>String conversion used by the correlation ids\<close>

fun showNat :: "nat \<Rightarrow> string" where
  "showNat n =
     (if n < 10 then [''0123456789'' ! n]
      else showNat (n div 10) @ [''0123456789'' ! (n mod 10)])"

declare showNat.simps [simp del]

definition showInt :: "int \<Rightarrow> string" where
  "showInt i = (if i < 0 then CHR ''-'' # showNat (nat (- i)) else showNat (nat i))"

text \<open>The string that \<^verbatim>\<open>"..." + v\<close> appends for a value \<open>v\<close>.\<close>

fun jsToString :: "jsval \<Rightarrow> string" where
  "jsToString JUndefined = ''undefined''"
| "jsToString (JNum i) = showInt i"
| "jsToString (JStr s) = s"

section \<open>Tracking changes\<close>

definition createSnapshot :: "idea \<Rightarrow> idea" where
  "createSnapshot s =
     (case snapshot s of
        None \<Rightarrow>
          s\<lparr>snapshot := Some \<lparr>snap_id = ideaId s, snap_title = title s,
                               snap_description = description s, snap_tags = tags s\<rparr>,
            eventsSinceSnapshot := []\<rparr>
      | Some _ \<Rightarrow> s)"

text \<open>
  \<^verbatim>\<open>reconstructFromSnapshot\<close> reads \<^verbatim>\<open>this.snapshot.ideaId\<close>: a \<^verbatim>\<open>TypeError\<close> when the
  snapshot is \<^verbatim>\<open>null\<close>, and \<^verbatim>\<open>undefined\<close> otherwise, since the snapshot object keeps the
  identifier under \<^verbatim>\<open>id\<close>.
\<close>

definition reconstructFromSnapshot :: "idea \<Rightarrow> error + idea" where
  "reconstructFromSnapshot s =
     (case snapshot s of
        None \<Rightarrow> Inl TypeError
      | Some sn \<Rightarrow>
          Inr (s\<lparr>ideaId := JUndefined, title := snap_title sn,
                 description := snap_description sn, tags := snap_tags sn\<rparr>))"

definition allEventsCommited :: "idea \<Rightarrow> error + idea" where
  "allEventsCommited s =
     (case snapshot s of
        None \<Rightarrow> Inr s
      | Some _ \<Rightarrow>
          (case reconstructFromSnapshot s of
             Inl err \<Rightarrow> Inl err
           | Inr s' \<Rightarrow> Inr (s'\<lparr>snapshot := None, eventsSinceSnapshot := []\<rparr>)))"

definition recordThat :: "event \<Rightarrow> idea \<Rightarrow> idea" where
  "recordThat e s =
     (case snapshot s of
        None \<Rightarrow> s
      | Some _ \<Rightarrow> s\<lparr>eventsSinceSnapshot := eventsSinceSnapshot s @ [e]\<rparr>)"

section \<open>Event handlers\<close>

definition applyIdeaWasCreated :: "event \<Rightarrow> idea \<Rightarrow> error + idea" where
  "applyIdeaWasCreated e s =
     (case data e of
        None \<Rightarrow> Inl TypeError
      | Some d \<Rightarrow>
          Inr (recordThat e
                 (s\<lparr>ideaId := d_ideaId d, title := d_title d, description := d_description d\<rparr>)))"

definition applyIdeaTitleWasChanged :: "event \<Rightarrow> idea \<Rightarrow> error + idea" where
  "applyIdeaTitleWasChanged e s =
     (case data e of
        None \<Rightarrow> Inl TypeError
      | Some d \<Rightarrow> Inr (recordThat e (s\<lparr>title := d_title d\<rparr>)))"

definition applyTagWasAddedToAnIdea :: "event \<Rightarrow> idea \<Rightarrow> error + idea" where
  "applyTagWasAddedToAnIdea e s =
     (case data e of
        None \<Rightarrow> Inl TypeError
      | Some d \<Rightarrow> Inr (recordThat e (s\<lparr>tags := tags s @ [d_tagId d]\<rparr>)))"

text \<open>\<^verbatim>\<open>_.reject(list, function (ue) { return ue.correlationId == event.correlationId; })\<close>\<close>

definition rejectCorrelation :: "event \<Rightarrow> event list \<Rightarrow> event list" where
  "rejectCorrelation e xs = filter (\<lambda>ue. correlationId ue \<noteq> correlationId e) xs"

text \<open>
  \<^verbatim>\<open>initializeState(stream, fromSnapshot)\<close>, the dynamic call \<^verbatim>\<open>this[functionName](event)\<close>
  (here \<open>dispatch\<close>) and the handlers of the two rejection events call one another.
  The \<^verbatim>\<open>for (si in stream)\<close> loop visits the indices the array has when the loop starts:
  entries pushed onto it meanwhile (the replay passes \<^verbatim>\<open>this.eventsSinceSnapshot\<close> itself
  as the stream) are not visited, so the loop runs over the list as it was on entry.
\<close>

function
  initializeState :: "event list \<Rightarrow> bool \<Rightarrow> idea \<Rightarrow> error + idea" and
  dispatch :: "event \<Rightarrow> idea \<Rightarrow> error + idea" and
  applyFailedThatIdeaTitleWasChanged :: "event \<Rightarrow> idea \<Rightarrow> error + idea" and
  applyFailedThatTagWasAddedToAnIdea :: "event \<Rightarrow> idea \<Rightarrow> error + idea" and
  processFailedEvent :: "event \<Rightarrow> idea \<Rightarrow> error + idea"
where
  "initializeState [] fromSnapshot s = Inr s"
| "initializeState (e # stream) fromSnapshot s =
     (case dispatch e
             (if \<not> fromSnapshot
              then s\<lparr>uncommittedEvents := rejectCorrelation e (uncommittedEvents s)\<rparr>
              else s) of
        Inl err \<Rightarrow> Inl err
      | Inr s' \<Rightarrow>
          (if \<not> fromSnapshot \<and> length (uncommittedEvents s') = 0
           then (case allEventsCommited s' of
                   Inl err \<Rightarrow> Inl err
                 | Inr s'' \<Rightarrow> initializeState stream fromSnapshot s'')
           else initializeState stream fromSnapshot s'))"
| "dispatch e s =
     (case etype e of
        IdeaWasCreated \<Rightarrow> applyIdeaWasCreated e s
      | IdeaTitleWasChanged \<Rightarrow> applyIdeaTitleWasChanged e s
      | TagWasAddedToAnIdea \<Rightarrow> applyTagWasAddedToAnIdea e s
      | FailedThatIdeaTitleWasChanged \<Rightarrow> applyFailedThatIdeaTitleWasChanged e s
      | FailedThatTagWasAddedToAnIdea \<Rightarrow> applyFailedThatTagWasAddedToAnIdea e s
      | UnknownType \<Rightarrow> Inl TypeError)"
| "applyFailedThatIdeaTitleWasChanged e s = processFailedEvent e s"
| "applyFailedThatTagWasAddedToAnIdea e s = processFailedEvent e s"
| "processFailedEvent e s =
     (case reconstructFromSnapshot
             (s\<lparr>eventsSinceSnapshot := rejectCorrelation e (eventsSinceSnapshot s)\<rparr>) of
        Inl err \<Rightarrow> Inl err
      | Inr s' \<Rightarrow> initializeState (eventsSinceSnapshot s') True s')"
  by pat_completeness auto


section \<open>Local commands\<close>

text \<open>
  \<^verbatim>\<open>this.apply(event)\<close>: run the handler, then push the event onto the uncommitted
  queue.
\<close>

definition applyEvent :: "event \<Rightarrow> idea \<Rightarrow> error + idea" where
  "applyEvent e s =
     (case dispatch e s of
        Inl err \<Rightarrow> Inl err
      | Inr s' \<Rightarrow> Inr (s'\<lparr>uncommittedEvents := uncommittedEvents s' @ [e]\<rparr>))"

text \<open>The event literals that \<^verbatim>\<open>changeTitle\<close> and \<^verbatim>\<open>addTag\<close> build.\<close>

definition titleChangedEvent :: "jsval \<Rightarrow> jsval \<Rightarrow> event" where
  "titleChangedEvent i newTitle =
     \<lparr>etype = IdeaTitleWasChanged,
      data = Some \<lparr>d_ideaId = i, d_title = newTitle,
                   d_description = JUndefined, d_tagId = JUndefined\<rparr>,
      correlationId = Some (''my-ref-title'' @ jsToString newTitle)\<rparr>"

definition tagAddedEvent :: "jsval \<Rightarrow> jsval \<Rightarrow> event" where
  "tagAddedEvent i tagId =
     \<lparr>etype = TagWasAddedToAnIdea,
      data = Some \<lparr>d_ideaId = i, d_title = JUndefined,
                   d_description = JUndefined, d_tagId = tagId\<rparr>,
      correlationId = Some (''my-ref-'' @ jsToString tagId)\<rparr>"

definition changeTitle :: "jsval \<Rightarrow> idea \<Rightarrow> error + idea" where
  "changeTitle newTitle s =
     (let s1 = createSnapshot s in applyEvent (titleChangedEvent (ideaId s1) newTitle) s1)"

definition addTag :: "jsval \<Rightarrow> idea \<Rightarrow> error + idea" where
  "addTag tagId s =
     (let s1 = createSnapshot s in applyEvent (tagAddedEvent (ideaId s1) tagId) s1)"

text \<open>Sequencing of calls on one object: a thrown error ends the sequence.\<close>

definition andThen :: "error + idea \<Rightarrow> (idea \<Rightarrow> error + idea) \<Rightarrow> error + idea" where
  "andThen r f = (case r of Inl err \<Rightarrow> Inl err | Inr s \<Rightarrow> f s)"


section \<open>Fixtures of the test suite\<close>

text \<open>\<^verbatim>\<open>new Idea(123, "1st idea")\<close>, the aggregate every test starts from.\<close>

definition testIdea :: idea where
  "testIdea = Idea (JNum 123) (JStr ''1st idea'') JUndefined"

text \<open>
  A server event \<^verbatim>\<open>{type: "IdeaTitleWasChanged", data: {title: t}}\<close>, with or without
  a \<^verbatim>\<open>correlationId\<close>.
\<close>

definition serverTitleEvent :: "string \<Rightarrow> string option \<Rightarrow> event" where
  "serverTitleEvent t c =
     \<lparr>etype = IdeaTitleWasChanged,
      data = Some \<lparr>d_ideaId = JUndefined, d_title = JStr t,
                   d_description = JUndefined, d_tagId = JUndefined\<rparr>,
      correlationId = c\<rparr>"

text \<open>A rejection \<^verbatim>\<open>{type: ty, correlationId: c}\<close>, which carries no data.\<close>

definition serverRejection :: "etype \<Rightarrow> string \<Rightarrow> event" where
  "serverRejection ty c = \<lparr>etype = ty, data = None, correlationId = Some c\<rparr>"

text \<open>
  Three states of the test aggregate around the confirmation of its only pending event:
  after \<^verbatim>\<open>changeTitle("A")\<close>; after the handler of the confirming server event has
  run on it with the queue emptied; and after \<^verbatim>\<open>allEventsCommited\<close> on that.
\<close>

definition titlePending :: idea where
  "titlePending =
     \<lparr>snapshot = Some \<lparr>snap_id = JNum 123, snap_title = JStr ''1st idea'',
                        snap_description = JUndefined, snap_tags = []\<rparr>,
      eventsSinceSnapshot = [titleChangedEvent (JNum 123) (JStr ''A'')],
      uncommittedEvents = [titleChangedEvent (JNum 123) (JStr ''A'')],
      ideaId = JNum 123, title = JStr ''A'', description = JUndefined, tags = []\<rparr>"

definition titleConfirmed :: idea where
  "titleConfirmed =
     titlePending
       \<lparr>eventsSinceSnapshot :=
          [titleChangedEvent (JNum 123) (JStr ''A''),
           serverTitleEvent ''A'' (Some ''my-ref-titleA'')],
        uncommittedEvents := []\<rparr>"

definition titleDiscarded :: idea where
  "titleDiscarded =
     \<lparr>snapshot = None, eventsSinceSnapshot = [], uncommittedEvents = [],
      ideaId = JUndefined, title = JStr ''1st idea'', description = JUndefined, tags = []\<rparr>"


section \<open>The state a rollback is meant to rebuild\<close>

text \<open>
  Reference definitions, for comparison with the code: the effect of one logged event on
  the materialized fields alone (no logging, no queue), and a log replayed in its
  original order from a given state.
\<close>

text \<open>The events the handlers log: one of the three domain events, with its data.\<close>

definition domainEvent :: "event \<Rightarrow> bool" where
  "domainEvent e =
     ((etype e = IdeaWasCreated \<or> etype e = IdeaTitleWasChanged \<or> etype e = TagWasAddedToAnIdea)
      \<and> data e \<noteq> None)"

definition applyFields :: "idea \<Rightarrow> event \<Rightarrow> idea" where
  "applyFields s e =
     (case data e of
        None \<Rightarrow> s
      | Some d \<Rightarrow>
          (case etype e of
             IdeaWasCreated \<Rightarrow>
               s\<lparr>ideaId := d_ideaId d, title := d_title d, description := d_description d\<rparr>
           | IdeaTitleWasChanged \<Rightarrow> s\<lparr>title := d_title d\<rparr>
           | TagWasAddedToAnIdea \<Rightarrow> s\<lparr>tags := tags s @ [d_tagId d]\<rparr>
           | _ \<Rightarrow> s))"

definition replayFields :: "idea \<Rightarrow> event list \<Rightarrow> idea" where
  "replayFields s es = foldl applyFields s es"

section \<open>Termination of the reconciliation\<close>

text \<open>
  A replay started by a rejection can meet a rejection event only if one sits in the log;
  the handlers never log one, so the number of rejection events in the log bounds the
  nesting of replays.
\<close>

definition isFailed :: "event \<Rightarrow> bool" where
  "isFailed e =
     (etype e = FailedThatIdeaTitleWasChanged \<or> etype e = FailedThatTagWasAddedToAnIdea)"

definition nFailed :: "event list \<Rightarrow> nat" where
  "nFailed xs = length (filter isFailed xs)"

definition failedLogged :: "event list \<Rightarrow> idea \<Rightarrow> bool" where
  "failedLogged es s = (set (filter isFailed es) \<subseteq> set (eventsSinceSnapshot s))"

definition rankStream :: "event list \<Rightarrow> idea \<Rightarrow> nat" where
  "rankStream es s =
     2 * nFailed (eventsSinceSnapshot s) + (if failedLogged es s then 0 else 1)"

definition rankFailed :: "event \<Rightarrow> idea \<Rightarrow> nat" where
  "rankFailed e s =
     (if isFailed e \<and> e \<in> set (eventsSinceSnapshot s)
      then 2 * nFailed (eventsSinceSnapshot s) - 1
      else 2 * nFailed (eventsSinceSnapshot s) + 1)"

fun rank :: "((event list \<times> bool \<times> idea) + (event \<times> idea)) +
             ((event \<times> idea) + ((event \<times> idea) + (event \<times> idea))) \<Rightarrow> nat \<times> nat" where
  "rank (Inl (Inl (es, f, s))) = (rankStream es s, length es + 3)"
| "rank (Inl (Inr (e, s))) = (if isFailed e then rankFailed e s else 0, 2)"
| "rank (Inr (Inl (e, s))) = (rankFailed e s, 1)"
| "rank (Inr (Inr (Inl (e, s)))) = (rankFailed e s, 1)"
| "rank (Inr (Inr (Inr (e, s)))) = (rankFailed e s, 0)"


lemma nFailed_reject_le: "nFailed (rejectCorrelation e xs) \<le> nFailed xs"
  unfolding nFailed_def rejectCorrelation_def
  by (induction xs) auto

lemma nFailed_reject_less:
  "isFailed e \<Longrightarrow> e \<in> set xs \<Longrightarrow> nFailed (rejectCorrelation e xs) < nFailed xs"
  unfolding nFailed_def rejectCorrelation_def
proof (induction xs)
  case Nil
  then show ?case by simp
next
  case (Cons x xs)
  have le: "length (filter isFailed (filter (\<lambda>ue. correlationId ue \<noteq> correlationId e) xs))
              \<le> length (filter isFailed xs)"
    using nFailed_reject_le [of e xs] by (simp add: nFailed_def rejectCorrelation_def)
  show ?case
  proof (cases "x = e")
    case True
    with Cons.prems le show ?thesis by simp
  next
    case False
    with Cons show ?thesis by auto
  qed
qed

lemma nFailed_recordThat:
  "\<not> isFailed e \<Longrightarrow> nFailed (eventsSinceSnapshot (recordThat e s)) = nFailed (eventsSinceSnapshot s)"
  by (simp add: recordThat_def nFailed_def split: option.splits)

lemma log_recordThat_upd [simp]:
  "eventsSinceSnapshot (recordThat e (s\<lparr>title := t\<rparr>)) = eventsSinceSnapshot (recordThat e s)"
  "eventsSinceSnapshot (recordThat e (s\<lparr>tags := ts\<rparr>)) = eventsSinceSnapshot (recordThat e s)"
  "eventsSinceSnapshot (recordThat e (s\<lparr>ideaId := i\<rparr>)) = eventsSinceSnapshot (recordThat e s)"
  "eventsSinceSnapshot (recordThat e (s\<lparr>description := d\<rparr>)) = eventsSinceSnapshot (recordThat e s)"
  by (simp_all add: recordThat_def split: option.splits)

lemma nFailed_allEventsCommited:
  "allEventsCommited s = Inr s' \<Longrightarrow> nFailed (eventsSinceSnapshot s') \<le> nFailed (eventsSinceSnapshot s)"
  by (auto simp: allEventsCommited_def reconstructFromSnapshot_def nFailed_def
           split: option.splits)

lemma log_reconstruct:
  "reconstructFromSnapshot s = Inr s' \<Longrightarrow> eventsSinceSnapshot s' = eventsSinceSnapshot s"
  by (auto simp: reconstructFromSnapshot_def split: option.splits)

lemmas es_dom = initializeState_dispatch_applyFailedThatIdeaTitleWasChanged_applyFailedThatTagWasAddedToAnIdea_processFailedEvent.pinduct

lemma nFailed_results:
  "initializeState_dispatch_applyFailedThatIdeaTitleWasChanged_applyFailedThatTagWasAddedToAnIdea_processFailedEvent_dom (Inl (Inl (es, f, s))) \<Longrightarrow>
     (\<forall>s'. initializeState es f s = Inr s' \<longrightarrow> nFailed (eventsSinceSnapshot s') \<le> nFailed (eventsSinceSnapshot s))"
  "initializeState_dispatch_applyFailedThatIdeaTitleWasChanged_applyFailedThatTagWasAddedToAnIdea_processFailedEvent_dom (Inl (Inr (e, s))) \<Longrightarrow>
     (\<forall>s'. dispatch e s = Inr s' \<longrightarrow>
        nFailed (eventsSinceSnapshot s')
          \<le> (if isFailed e then nFailed (rejectCorrelation e (eventsSinceSnapshot s))
              else nFailed (eventsSinceSnapshot s)))"
  "initializeState_dispatch_applyFailedThatIdeaTitleWasChanged_applyFailedThatTagWasAddedToAnIdea_processFailedEvent_dom (Inr (Inl (e, s))) \<Longrightarrow>
     (\<forall>s'. applyFailedThatIdeaTitleWasChanged e s = Inr s' \<longrightarrow>
        nFailed (eventsSinceSnapshot s') \<le> nFailed (rejectCorrelation e (eventsSinceSnapshot s)))"
  "initializeState_dispatch_applyFailedThatIdeaTitleWasChanged_applyFailedThatTagWasAddedToAnIdea_processFailedEvent_dom (Inr (Inr (Inl (e, s)))) \<Longrightarrow>
     (\<forall>s'. applyFailedThatTagWasAddedToAnIdea e s = Inr s' \<longrightarrow>
        nFailed (eventsSinceSnapshot s') \<le> nFailed (rejectCorrelation e (eventsSinceSnapshot s)))"
  "initializeState_dispatch_applyFailedThatIdeaTitleWasChanged_applyFailedThatTagWasAddedToAnIdea_processFailedEvent_dom (Inr (Inr (Inr (e, s)))) \<Longrightarrow>
     (\<forall>s'. processFailedEvent e s = Inr s' \<longrightarrow>
        nFailed (eventsSinceSnapshot s') \<le> nFailed (rejectCorrelation e (eventsSinceSnapshot s)))"
proof (induction rule: es_dom)
  case (1 fromSnapshot s)
  then show ?case by (simp add: initializeState.psimps)
next
  case (2 e stream fromSnapshot s)
  let ?s1 = "if \<not> fromSnapshot
             then s\<lparr>uncommittedEvents := rejectCorrelation e (uncommittedEvents s)\<rparr> else s"
  have log1: "eventsSinceSnapshot ?s1 = eventsSinceSnapshot s" by simp
  show ?case
  proof (intro allI impI)
    fix s' assume res: "initializeState (e # stream) fromSnapshot s = Inr s'"
    from res "2.hyps" obtain b where b: "dispatch e ?s1 = Inr b"
      by (auto simp: initializeState.psimps split: sum.splits)
    from "2.IH"(1) b have "nFailed (eventsSinceSnapshot b)
          \<le> (if isFailed e then nFailed (rejectCorrelation e (eventsSinceSnapshot ?s1))
              else nFailed (eventsSinceSnapshot ?s1))" by blast
    then have bl: "nFailed (eventsSinceSnapshot b) \<le> nFailed (eventsSinceSnapshot s)"
      using nFailed_reject_le [of e "eventsSinceSnapshot s"] unfolding log1
      by (auto split: if_splits)
    show "nFailed (eventsSinceSnapshot s') \<le> nFailed (eventsSinceSnapshot s)"
    proof (cases "\<not> fromSnapshot \<and> length (uncommittedEvents b) = 0")
      case True
      with res b "2.hyps" obtain ba where ba: "allEventsCommited b = Inr ba"
        and r: "initializeState stream fromSnapshot ba = Inr s'"
        by (auto simp: initializeState.psimps split: sum.splits)
      from "2.IH"(2) [OF b True ba] r
      have "nFailed (eventsSinceSnapshot s') \<le> nFailed (eventsSinceSnapshot ba)" by blast
      with nFailed_allEventsCommited [OF ba] bl show ?thesis by linarith
    next
      case False
      with res b "2.hyps" have r: "initializeState stream fromSnapshot b = Inr s'"
        by (auto simp: initializeState.psimps split: sum.splits)
      from "2.IH"(3) [OF b False] r
      have "nFailed (eventsSinceSnapshot s') \<le> nFailed (eventsSinceSnapshot b)" by blast
      with bl show ?thesis by linarith
    qed
  qed
next
  case (3 e s)
  show ?case
  proof (cases "etype e")
    case IdeaWasCreated
    then show ?thesis using "3.hyps"
      by (auto simp: dispatch.psimps isFailed_def applyIdeaWasCreated_def nFailed_recordThat
               split: option.splits)
  next
    case IdeaTitleWasChanged
    then show ?thesis using "3.hyps"
      by (auto simp: dispatch.psimps isFailed_def applyIdeaTitleWasChanged_def nFailed_recordThat
               split: option.splits)
  next
    case TagWasAddedToAnIdea
    then show ?thesis using "3.hyps"
      by (auto simp: dispatch.psimps isFailed_def applyTagWasAddedToAnIdea_def nFailed_recordThat
               split: option.splits)
  next
    case FailedThatIdeaTitleWasChanged
    then show ?thesis using "3.hyps" "3.IH"(1)
      by (simp add: dispatch.psimps isFailed_def)
  next
    case FailedThatTagWasAddedToAnIdea
    then show ?thesis using "3.hyps" "3.IH"(2)
      by (simp add: dispatch.psimps isFailed_def)
  next
    case UnknownType
    then show ?thesis using "3.hyps" by (simp add: dispatch.psimps)
  qed
next
  case (4 e s)
  then show ?case by (simp add: applyFailedThatIdeaTitleWasChanged.psimps)
next
  case (5 e s)
  then show ?case by (simp add: applyFailedThatTagWasAddedToAnIdea.psimps)
next
  case (6 e s)
  show ?case
  proof (intro allI impI)
    fix s' assume res: "processFailedEvent e s = Inr s'"
    let ?s1 = "s\<lparr>eventsSinceSnapshot := rejectCorrelation e (eventsSinceSnapshot s)\<rparr>"
    from res "6.hyps" obtain b where b: "reconstructFromSnapshot ?s1 = Inr b"
      and r: "initializeState (eventsSinceSnapshot b) True b = Inr s'"
      by (auto simp: processFailedEvent.psimps split: sum.splits)
    from "6.IH" [OF b] r
    have "nFailed (eventsSinceSnapshot s') \<le> nFailed (eventsSinceSnapshot b)" by blast
    with log_reconstruct [OF b]
    show "nFailed (eventsSinceSnapshot s') \<le> nFailed (rejectCorrelation e (eventsSinceSnapshot s))"
      by simp
  qed
qed

lemma rankFailed_le_rankStream:
  assumes "isFailed e" "eventsSinceSnapshot s' = eventsSinceSnapshot s"
  shows "rankFailed e s' \<le> rankStream (e # stream) s"
  using assms by (auto simp: rankFailed_def rankStream_def failedLogged_def)

lemma dispatch_log_grows:
  assumes dom: "initializeState_dispatch_applyFailedThatIdeaTitleWasChanged_applyFailedThatTagWasAddedToAnIdea_processFailedEvent_dom (Inl (Inr (e, s)))"
    and res: "dispatch e s = Inr b" and nf: "\<not> isFailed e"
  shows "set (eventsSinceSnapshot s) \<subseteq> set (eventsSinceSnapshot b)"
  using res nf
  by (cases "etype e")
     (auto simp: dispatch.psimps [OF dom] isFailed_def applyIdeaWasCreated_def
                 applyIdeaTitleWasChanged_def applyTagWasAddedToAnIdea_def recordThat_def
           split: option.splits)

lemma rankStream_step:
  assumes dom: "initializeState_dispatch_applyFailedThatIdeaTitleWasChanged_applyFailedThatTagWasAddedToAnIdea_processFailedEvent_dom (Inl (Inr (e, s1)))"
    and res: "dispatch e s1 = Inr b"
    and log1: "eventsSinceSnapshot s1 = eventsSinceSnapshot s"
    and b': "b' = b \<or> allEventsCommited b = Inr b'"
  shows "rankStream stream b' \<le> rankStream (e # stream) s"
proof -
  let ?L = "eventsSinceSnapshot s"
  have bound: "nFailed (eventsSinceSnapshot b)
                 \<le> (if isFailed e then nFailed (rejectCorrelation e ?L) else nFailed ?L)"
    using nFailed_results(2) [OF dom] res log1 by auto
  have b'le: "nFailed (eventsSinceSnapshot b') \<le> nFailed (eventsSinceSnapshot b)"
    using b' nFailed_allEventsCommited by auto
  have b'cases: "eventsSinceSnapshot b' = eventsSinceSnapshot b \<or> eventsSinceSnapshot b' = []"
    using b' by (auto simp: allEventsCommited_def reconstructFromSnapshot_def split: option.splits)
  show ?thesis
  proof (cases "failedLogged (e # stream) s")
    case False
    have "nFailed (eventsSinceSnapshot b') \<le> nFailed ?L"
      using bound b'le nFailed_reject_le [of e ?L] by (auto split: if_splits)
    with False show ?thesis by (simp add: rankStream_def)
  next
    case True
    show ?thesis
    proof (cases "isFailed e")
      case isF: True
      with True have "e \<in> set ?L" by (simp add: failedLogged_def)
      from nFailed_reject_less [OF isF this] bound isF b'le
      have "nFailed (eventsSinceSnapshot b') < nFailed ?L" by simp
      then show ?thesis by (simp add: rankStream_def)
    next
      case notF: False
      have sub: "set ?L \<subseteq> set (eventsSinceSnapshot b)"
        using dispatch_log_grows [OF dom res notF] log1 by simp
      have le: "nFailed (eventsSinceSnapshot b') \<le> nFailed ?L"
        using bound b'le notF by simp
      from b'cases show ?thesis
      proof
        assume "eventsSinceSnapshot b' = eventsSinceSnapshot b"
        with True sub notF have "failedLogged stream b'" by (auto simp: failedLogged_def)
        with le show ?thesis by (simp add: rankStream_def)
      next
        assume emp: "eventsSinceSnapshot b' = []"
        show ?thesis
        proof (cases "filter isFailed stream = []")
          case True
          then have "failedLogged stream b'" by (simp add: failedLogged_def)
          with emp show ?thesis by (simp add: rankStream_def nFailed_def)
        next
          case False
          then obtain x where x: "x \<in> set stream" "isFailed x"
            by (auto simp: filter_empty_conv)
          with True have "x \<in> set ?L" by (auto simp: failedLogged_def)
          with x have "filter isFailed ?L \<noteq> []" by (auto simp: filter_empty_conv)
          then have "1 \<le> nFailed ?L" by (cases "filter isFailed ?L") (auto simp: nFailed_def)
          with emp show ?thesis by (simp add: rankStream_def nFailed_def)
        qed
      qed
    qed
  qed
qed

lemma rankStream_replay:
  assumes "reconstructFromSnapshot
             (s\<lparr>eventsSinceSnapshot := rejectCorrelation e (eventsSinceSnapshot s)\<rparr>) = Inr b"
  shows "rankStream (eventsSinceSnapshot b) b < rankFailed e s"
proof -
  have lb: "eventsSinceSnapshot b = rejectCorrelation e (eventsSinceSnapshot s)"
    using log_reconstruct [OF assms] by simp
  have fl: "failedLogged (eventsSinceSnapshot b) b" by (auto simp: failedLogged_def)
  show ?thesis
  proof (cases "isFailed e \<and> e \<in> set (eventsSinceSnapshot s)")
    case True
    then have "nFailed (rejectCorrelation e (eventsSinceSnapshot s)) < nFailed (eventsSinceSnapshot s)"
      using nFailed_reject_less by blast
    with True fl lb show ?thesis by (simp add: rankStream_def rankFailed_def)
  next
    case False
    with fl lb nFailed_reject_le [of e "eventsSinceSnapshot s"] show ?thesis
      by (auto simp: rankStream_def rankFailed_def)
  qed
qed

termination initializeState
proof (relation "inv_image (less_than <*lex*> less_than) rank", goal_cases)
  case 1
  show ?case by (intro wf_inv_image wf_lex_prod wf_less_than)
next
  case (2 e stream fromSnapshot s)
  have "isFailed e \<Longrightarrow> rankFailed e
          (if \<not> fromSnapshot
           then s\<lparr>uncommittedEvents := rejectCorrelation e (uncommittedEvents s)\<rparr> else s)
        \<le> rankStream (e # stream) s"
    by (rule rankFailed_le_rankStream) auto
  then show ?case by (auto simp: le_less)
next
  case (3 e stream fromSnapshot s b ba)
  have "rankStream stream ba \<le> rankStream (e # stream) s"
    by (rule rankStream_step [OF 3(4) 3(1)]) (use 3 in auto)
  then show ?case by (auto simp: le_less)
next
  case (4 e stream fromSnapshot s b)
  have "rankStream stream b \<le> rankStream (e # stream) s"
    by (rule rankStream_step [OF 4(3) 4(1)]) auto
  then show ?case by (auto simp: le_less)
next
  case (5 e s)
  then show ?case by (simp add: isFailed_def)
next
  case (6 e s)
  then show ?case by (simp add: isFailed_def)
next
  case (7 e s)
  show ?case by simp
next
  case (8 e s)
  show ?case by simp
next
  case (9 e s b)
  from rankStream_replay [OF 9] show ?case by simp
qed

declare initializeState.simps [simp del] dispatch.simps [simp del]
  processFailedEvent.simps [simp del]


section \<open>Frame of the uncommitted queue\<close>

lemmas es_induct = initializeState_dispatch_applyFailedThatIdeaTitleWasChanged_applyFailedThatTagWasAddedToAnIdea_processFailedEvent.induct

lemma queue_allEventsCommited:
  "allEventsCommited s = Inr s' \<Longrightarrow> uncommittedEvents s' = uncommittedEvents s"
  by (auto simp: allEventsCommited_def reconstructFromSnapshot_def split: option.splits)

lemma queue_reconstruct:
  "reconstructFromSnapshot s = Inr s' \<Longrightarrow> uncommittedEvents s' = uncommittedEvents s"
  by (auto simp: reconstructFromSnapshot_def split: option.splits)

lemma queue_recordThat [simp]: "uncommittedEvents (recordThat e s) = uncommittedEvents s"
  by (simp add: recordThat_def split: option.splits)

lemma queue_frame:
  "\<forall>s'. initializeState es f s = Inr s' \<longrightarrow>
     uncommittedEvents s' =
       (if f then uncommittedEvents s
        else filter (\<lambda>ue. correlationId ue \<notin> correlationId ` set es) (uncommittedEvents s))"
  "\<forall>s'. dispatch e s = Inr s' \<longrightarrow> uncommittedEvents s' = uncommittedEvents s"
  "\<forall>s'. applyFailedThatIdeaTitleWasChanged e s = Inr s' \<longrightarrow> uncommittedEvents s' = uncommittedEvents s"
  "\<forall>s'. applyFailedThatTagWasAddedToAnIdea e s = Inr s' \<longrightarrow> uncommittedEvents s' = uncommittedEvents s"
  "\<forall>s'. processFailedEvent e s = Inr s' \<longrightarrow> uncommittedEvents s' = uncommittedEvents s"
proof (induction es f s and e s and e s and e s and e s rule: es_induct)
  case (1 fromSnapshot s)
  show ?case by (simp add: initializeState.simps)
next
  case (2 e stream fromSnapshot s)
  let ?s1 = "if \<not> fromSnapshot
             then s\<lparr>uncommittedEvents := rejectCorrelation e (uncommittedEvents s)\<rparr> else s"
  show ?case
  proof (intro allI impI)
    fix s' assume res: "initializeState (e # stream) fromSnapshot s = Inr s'"
    then obtain b where b: "dispatch e ?s1 = Inr b"
      by (auto simp: initializeState.simps split: sum.splits)
    have qb: "uncommittedEvents b = uncommittedEvents ?s1" using "2.IH"(1) b by blast
    obtain b' where b': "b' = b \<or> allEventsCommited b = Inr b'"
      and r: "initializeState stream fromSnapshot b' = Inr s'"
      and ih: "\<forall>s'. initializeState stream fromSnapshot b' = Inr s' \<longrightarrow>
                 uncommittedEvents s' =
                   (if fromSnapshot then uncommittedEvents b'
                    else filter (\<lambda>ue. correlationId ue \<notin> correlationId ` set stream)
                           (uncommittedEvents b'))"
    proof (cases "\<not> fromSnapshot \<and> length (uncommittedEvents b) = 0")
      case True
      with res b obtain ba where ba: "allEventsCommited b = Inr ba"
        and r: "initializeState stream fromSnapshot ba = Inr s'"
        by (auto simp: initializeState.simps split: sum.splits)
      from "2.IH"(2) [OF b True ba] ba r that show ?thesis by blast
    next
      case False
      with res b have r: "initializeState stream fromSnapshot b = Inr s'"
        by (auto simp: initializeState.simps split: sum.splits)
      from "2.IH"(3) [OF b False] r that show ?thesis by blast
    qed
    have qb': "uncommittedEvents b' = uncommittedEvents ?s1"
      using b' qb queue_allEventsCommited by auto
    from ih r have "uncommittedEvents s' =
        (if fromSnapshot then uncommittedEvents b'
         else filter (\<lambda>ue. correlationId ue \<notin> correlationId ` set stream) (uncommittedEvents b'))"
      by blast
    with qb' show "uncommittedEvents s' =
        (if fromSnapshot then uncommittedEvents s
         else filter (\<lambda>ue. correlationId ue \<notin> correlationId ` set (e # stream))
                (uncommittedEvents s))"
      by (auto simp: rejectCorrelation_def intro: filter_cong)
  qed
next
  case (3 e s)
  show ?case
  proof (cases "etype e")
    case IdeaWasCreated
    then show ?thesis
      by (auto simp: dispatch.simps applyIdeaWasCreated_def split: option.splits)
  next
    case IdeaTitleWasChanged
    then show ?thesis
      by (auto simp: dispatch.simps applyIdeaTitleWasChanged_def split: option.splits)
  next
    case TagWasAddedToAnIdea
    then show ?thesis
      by (auto simp: dispatch.simps applyTagWasAddedToAnIdea_def split: option.splits)
  next
    case FailedThatIdeaTitleWasChanged
    then show ?thesis using "3.IH"(1) by (simp add: dispatch.simps)
  next
    case FailedThatTagWasAddedToAnIdea
    then show ?thesis using "3.IH"(2) by (simp add: dispatch.simps)
  next
    case UnknownType
    then show ?thesis by (simp add: dispatch.simps)
  qed
next
  case (4 e s)
  then show ?case by simp
next
  case (5 e s)
  then show ?case by simp
next
  case (6 e s)
  show ?case
  proof (intro allI impI)
    fix s' assume res: "processFailedEvent e s = Inr s'"
    let ?s1 = "s\<lparr>eventsSinceSnapshot := rejectCorrelation e (eventsSinceSnapshot s)\<rparr>"
    from res obtain b where b: "reconstructFromSnapshot ?s1 = Inr b"
      and r: "initializeState (eventsSinceSnapshot b) True b = Inr s'"
      by (auto simp: processFailedEvent.simps split: sum.splits)
    from "6.IH" [OF b] r have "uncommittedEvents s' = uncommittedEvents b" by simp
    with queue_reconstruct [OF b] show "uncommittedEvents s' = uncommittedEvents s" by simp
  qed
qed

lemma tags_recordThat [simp]: "tags (recordThat e s) = tags s"
  by (simp add: recordThat_def split: option.splits)

lemma tags_createSnapshot [simp]: "tags (createSnapshot s) = tags s"
  by (simp add: createSnapshot_def split: option.splits)

lemma queue_createSnapshot [simp]: "uncommittedEvents (createSnapshot s) = uncommittedEvents s"
  by (simp add: createSnapshot_def split: option.splits)

lemma ideaId_createSnapshot [simp]: "ideaId (createSnapshot s) = ideaId s"
  by (simp add: createSnapshot_def split: option.splits)

lemma changeTitle_result:
  "changeTitle x s =
     Inr (recordThat (titleChangedEvent (ideaId s) x) (createSnapshot s\<lparr>title := x\<rparr>)
          \<lparr>uncommittedEvents := uncommittedEvents s @ [titleChangedEvent (ideaId s) x]\<rparr>)"
  by (simp add: changeTitle_def applyEvent_def dispatch.simps applyIdeaTitleWasChanged_def
                titleChangedEvent_def Let_def)

lemma addTag_result:
  "addTag x s =
     Inr (recordThat (tagAddedEvent (ideaId s) x) (createSnapshot s\<lparr>tags := tags s @ [x]\<rparr>)
          \<lparr>uncommittedEvents := uncommittedEvents s @ [tagAddedEvent (ideaId s) x]\<rparr>)"
  by (simp add: addTag_def applyEvent_def dispatch.simps applyTagWasAddedToAnIdea_def
                tagAddedEvent_def Let_def)

lemma ideaId_recordThat [simp]: "ideaId (recordThat e s) = ideaId s"
  by (simp add: recordThat_def split: option.splits)

lemma changeTitle_queue:
  assumes "changeTitle x s = Inr s1"
  shows "uncommittedEvents s1 = uncommittedEvents s @ [titleChangedEvent (ideaId s) x]"
    and "ideaId s1 = ideaId s"
  using assms by (auto simp: changeTitle_result)

lemma addTag_queue:
  assumes "addTag x s = Inr s1"
  shows "uncommittedEvents s1 = uncommittedEvents s @ [tagAddedEvent (ideaId s) x]"
    and "ideaId s1 = ideaId s" and "tags s1 = tags s @ [x]"
  using assms by (auto simp: addTag_result)

lemmas model_defs =
  testIdea_def Idea_def serverTitleEvent_def serverRejection_def andThen_def
  changeTitle_def addTag_def titleChangedEvent_def tagAddedEvent_def applyEvent_def createSnapshot_def reconstructFromSnapshot_def
  allEventsCommited_def recordThat_def applyIdeaWasCreated_def applyIdeaTitleWasChanged_def
  applyTagWasAddedToAnIdea_def rejectCorrelation_def initializeState.simps dispatch.simps processFailedEvent.simps
  showInt_def showNat.simps

lemma cid_events [simp]:
  "correlationId (titleChangedEvent i x) = Some (''my-ref-title'' @ jsToString x)"
  "correlationId (tagAddedEvent i x) = Some (''my-ref-'' @ jsToString x)"
  by (simp_all add: titleChangedEvent_def tagAddedEvent_def)

lemma singleton_batch_queue:
  assumes "initializeState [ev] False s = Inr s'"
  shows "uncommittedEvents s' = rejectCorrelation ev (uncommittedEvents s)"
proof -
  have "uncommittedEvents s' =
          filter (\<lambda>ue. correlationId ue \<notin> correlationId ` set [ev]) (uncommittedEvents s)"
    using queue_frame(1) [rule_format, OF assms] by (simp only: if_False)
  then show ?thesis by (simp add: rejectCorrelation_def)
qed


section \<open>Further facts about the reconciliation loop\<close>

lemma batch_without_correlation_queue:
  assumes q: "\<forall>ue\<in>set (uncommittedEvents s). correlationId ue \<noteq> None"
    and b: "\<forall>e\<in>set batch. correlationId e = None"
    and r: "initializeState batch False s = Inr s'"
  shows "uncommittedEvents s' = uncommittedEvents s"
proof -
  have "uncommittedEvents s' =
          filter (\<lambda>ue. correlationId ue \<notin> correlationId ` set batch) (uncommittedEvents s)"
    using queue_frame(1) [rule_format, OF r] by (simp only: if_False)
  also have "\<dots> = uncommittedEvents s"
    using q b by (auto simp: filter_id_conv)
  finally show ?thesis .
qed

lemma andThen_Inr [simp]: "andThen (Inr s) f = f s"
  by (simp add: andThen_def)

lemma andThen_Inl [simp]: "andThen (Inl err) f = Inl err"
  by (simp add: andThen_def)

lemma initializeState_append:
  "initializeState (xs @ ys) f s = andThen (initializeState xs f s) (initializeState ys f)"
proof (induction xs arbitrary: s)
  case Nil
  show ?case by (simp add: initializeState.simps)
next
  case (Cons e xs)
  show ?case
    unfolding append_Cons initializeState.simps Cons.IH
    by (simp split: sum.splits)
qed

lemma snapshot_allEventsCommited:
  "allEventsCommited s = Inr s' \<Longrightarrow> snapshot s' = None"
  by (auto simp: allEventsCommited_def reconstructFromSnapshot_def split: option.splits)

lemma singleton_batch_discards:
  assumes r: "initializeState [e] False s = Inr s'" and q: "uncommittedEvents s' = []"
  shows "snapshot s' = None"
proof -
  let ?s1 = "s\<lparr>uncommittedEvents := rejectCorrelation e (uncommittedEvents s)\<rparr>"
  from r obtain b where b: "dispatch e ?s1 = Inr b"
    by (auto simp: initializeState.simps split: sum.splits)
  show ?thesis
  proof (cases "length (uncommittedEvents b) = 0")
    case True
    with r b have "allEventsCommited b = Inr s'"
      by (auto simp: initializeState.simps split: sum.splits)
    then show ?thesis by (rule snapshot_allEventsCommited)
  next
    case False
    with r b have "s' = b" by (auto simp: initializeState.simps split: sum.splits)
    with False q show ?thesis by simp
  qed
qed

section \<open>What the rollback rebuilds\<close>

text \<open>
  With a snapshot, a log of domain events and another local event still pending, a
  rejection rebuilds title, description and tags as the snapshot's values with the
  shortened log replayed in order. The identifier restarts from \<^verbatim>\<open>undefined\<close>, and
  the replay logs the shortened log a second time.
\<close>

text \<open>Every state reached from a log of domain events has a log of domain events.\<close>

lemma log_allEventsCommited:
  "allEventsCommited s = Inr s' \<Longrightarrow>
     eventsSinceSnapshot s' = eventsSinceSnapshot s \<or> eventsSinceSnapshot s' = []"
  by (auto simp: allEventsCommited_def reconstructFromSnapshot_def split: option.splits)

lemma log_dispatch_domain:
  assumes "dispatch e s = Inr s'" "\<not> isFailed e"
  shows "domainEvent e \<and>
         (eventsSinceSnapshot s' = eventsSinceSnapshot s \<or>
          eventsSinceSnapshot s' = eventsSinceSnapshot s @ [e])"
  using assms
  by (cases "etype e")
     (auto simp: dispatch.simps isFailed_def domainEvent_def applyIdeaWasCreated_def
                 applyIdeaTitleWasChanged_def applyTagWasAddedToAnIdea_def recordThat_def
           split: option.splits)

lemma log_wellformed:
  "\<forall>s'. list_all domainEvent (eventsSinceSnapshot s) \<longrightarrow> initializeState es f s = Inr s' \<longrightarrow>
        list_all domainEvent (eventsSinceSnapshot s')"
  "\<forall>s'. list_all domainEvent (eventsSinceSnapshot s) \<longrightarrow> dispatch e s = Inr s' \<longrightarrow>
        list_all domainEvent (eventsSinceSnapshot s')"
  "\<forall>s'. list_all domainEvent (eventsSinceSnapshot s) \<longrightarrow>
        applyFailedThatIdeaTitleWasChanged e s = Inr s' \<longrightarrow>
        list_all domainEvent (eventsSinceSnapshot s')"
  "\<forall>s'. list_all domainEvent (eventsSinceSnapshot s) \<longrightarrow>
        applyFailedThatTagWasAddedToAnIdea e s = Inr s' \<longrightarrow>
        list_all domainEvent (eventsSinceSnapshot s')"
  "\<forall>s'. list_all domainEvent (eventsSinceSnapshot s) \<longrightarrow> processFailedEvent e s = Inr s' \<longrightarrow>
        list_all domainEvent (eventsSinceSnapshot s')"
proof (induction es f s and e s and e s and e s and e s rule: es_induct)
  case (1 fromSnapshot s)
  show ?case by (simp add: initializeState.simps)
next
  case (2 e stream fromSnapshot s)
  let ?s1 = "if \<not> fromSnapshot
             then s\<lparr>uncommittedEvents := rejectCorrelation e (uncommittedEvents s)\<rparr> else s"
  show ?case
  proof (intro allI impI)
    fix s' assume wf: "list_all domainEvent (eventsSinceSnapshot s)"
      and res: "initializeState (e # stream) fromSnapshot s = Inr s'"
    have wf1: "list_all domainEvent (eventsSinceSnapshot ?s1)" using wf by simp
    from res obtain b where b: "dispatch e ?s1 = Inr b"
      by (auto simp: initializeState.simps split: sum.splits)
    from "2.IH"(1) wf1 b have wfb: "list_all domainEvent (eventsSinceSnapshot b)" by blast
    show "list_all domainEvent (eventsSinceSnapshot s')"
    proof (cases "\<not> fromSnapshot \<and> length (uncommittedEvents b) = 0")
      case True
      with res b obtain ba where ba: "allEventsCommited b = Inr ba"
        and r: "initializeState stream fromSnapshot ba = Inr s'"
        by (auto simp: initializeState.simps split: sum.splits)
      have "list_all domainEvent (eventsSinceSnapshot ba)"
        using log_allEventsCommited [OF ba] wfb by auto
      with "2.IH"(2) [OF b True ba] r show ?thesis by blast
    next
      case False
      with res b have r: "initializeState stream fromSnapshot b = Inr s'"
        by (auto simp: initializeState.simps split: sum.splits)
      with "2.IH"(3) [OF b False] wfb show ?thesis by blast
    qed
  qed
next
  case (3 e s)
  show ?case
  proof (intro allI impI)
    fix s' assume wf: "list_all domainEvent (eventsSinceSnapshot s)"
      and res: "dispatch e s = Inr s'"
    show "list_all domainEvent (eventsSinceSnapshot s')"
    proof (cases "isFailed e")
      case False
      from log_dispatch_domain [OF res False] wf show ?thesis by auto
    next
      case True
      then consider "etype e = FailedThatIdeaTitleWasChanged"
        | "etype e = FailedThatTagWasAddedToAnIdea"
        by (auto simp: isFailed_def)
      then show ?thesis
      proof cases
        case 1
        with res have "applyFailedThatIdeaTitleWasChanged e s = Inr s'"
          by (simp add: dispatch.simps)
        with "3.IH"(1) [OF 1] wf show ?thesis by blast
      next
        case 2
        with res have "applyFailedThatTagWasAddedToAnIdea e s = Inr s'"
          by (simp add: dispatch.simps)
        with "3.IH"(2) [OF 2] wf show ?thesis by blast
      qed
    qed
  qed
next
  case (4 e s)
  then show ?case by simp
next
  case (5 e s)
  then show ?case by simp
next
  case (6 e s)
  show ?case
  proof (intro allI impI)
    fix s' assume wf: "list_all domainEvent (eventsSinceSnapshot s)"
      and res: "processFailedEvent e s = Inr s'"
    let ?s1 = "s\<lparr>eventsSinceSnapshot := rejectCorrelation e (eventsSinceSnapshot s)\<rparr>"
    from res obtain b where b: "reconstructFromSnapshot ?s1 = Inr b"
      and r: "initializeState (eventsSinceSnapshot b) True b = Inr s'"
      by (auto simp: processFailedEvent.simps split: sum.splits)
    have "list_all domainEvent (eventsSinceSnapshot b)"
      using log_reconstruct [OF b] wf by (simp add: rejectCorrelation_def list_all_iff)
    with "6.IH" [OF b] r show "list_all domainEvent (eventsSinceSnapshot s')" by blast
  qed
qed

lemma log_wellformed_commands:
  assumes "list_all domainEvent (eventsSinceSnapshot s)"
  shows "changeTitle x s = Inr s' \<Longrightarrow> list_all domainEvent (eventsSinceSnapshot s')"
    and "addTag x s = Inr s' \<Longrightarrow> list_all domainEvent (eventsSinceSnapshot s')"
  using assms
  by (auto simp: changeTitle_result addTag_result recordThat_def createSnapshot_def
                 domainEvent_def titleChangedEvent_def tagAddedEvent_def
           split: option.splits)

lemma applyFields_log [simp]:
  "applyFields (s\<lparr>eventsSinceSnapshot := l\<rparr>) e = (applyFields s e)\<lparr>eventsSinceSnapshot := l\<rparr>"
  by (simp add: applyFields_def split: option.splits etype.splits)

lemma applyFields_frame [simp]:
  "snapshot (applyFields s e) = snapshot s"
  "eventsSinceSnapshot (applyFields s e) = eventsSinceSnapshot s"
  "uncommittedEvents (applyFields s e) = uncommittedEvents s"
  by (simp_all add: applyFields_def split: option.splits etype.splits)

lemma replayFields_simps [simp]:
  "replayFields s [] = s"
  "replayFields s (e # es) = replayFields (applyFields s e) es"
  by (simp_all add: replayFields_def)

lemma applyFields_queue [simp]:
  "applyFields (s\<lparr>uncommittedEvents := q\<rparr>) e = (applyFields s e)\<lparr>uncommittedEvents := q\<rparr>"
  by (simp add: applyFields_def split: option.splits etype.splits)

lemma replayFields_queue [simp]:
  "replayFields (s\<lparr>uncommittedEvents := q\<rparr>) es = (replayFields s es)\<lparr>uncommittedEvents := q\<rparr>"
  by (induction es arbitrary: s) simp_all

lemma replayFields_log [simp]:
  "replayFields (s\<lparr>eventsSinceSnapshot := l\<rparr>) es = (replayFields s es)\<lparr>eventsSinceSnapshot := l\<rparr>"
  by (induction es arbitrary: s) simp_all

lemma replayFields_frame [simp]:
  "snapshot (replayFields s es) = snapshot s"
  "eventsSinceSnapshot (replayFields s es) = eventsSinceSnapshot s"
  "uncommittedEvents (replayFields s es) = uncommittedEvents s"
  by (induction es arbitrary: s) simp_all

lemma dispatch_domainEvent:
  assumes "domainEvent e" "snapshot s = Some sn"
  shows "dispatch e s = Inr ((applyFields s e)\<lparr>eventsSinceSnapshot := eventsSinceSnapshot s @ [e]\<rparr>)"
  using assms
  by (auto simp: domainEvent_def dispatch.simps applyFields_def recordThat_def
                 applyIdeaWasCreated_def applyIdeaTitleWasChanged_def applyTagWasAddedToAnIdea_def)

lemma replay_domainEvents:
  assumes "list_all domainEvent es" "snapshot s = Some sn"
  shows "initializeState es True s =
           Inr ((replayFields s es)\<lparr>eventsSinceSnapshot := eventsSinceSnapshot s @ es\<rparr>)"
  using assms
proof (induction es arbitrary: s)
  case Nil
  show ?case by (simp add: initializeState.simps)
next
  case (Cons e es)
  let ?s1 = "(applyFields s e)\<lparr>eventsSinceSnapshot := eventsSinceSnapshot s @ [e]\<rparr>"
  from Cons.prems have d: "dispatch e s = Inr ?s1" and rest: "list_all domainEvent es"
    by (simp_all add: dispatch_domainEvent)
  have sn: "snapshot ?s1 = Some sn" using Cons.prems by simp
  have "initializeState (e # es) True s = initializeState es True ?s1"
    by (simp add: initializeState.simps d)
  also have "\<dots> = Inr ((replayFields ?s1 es)\<lparr>eventsSinceSnapshot := eventsSinceSnapshot ?s1 @ es\<rparr>)"
    by (rule Cons.IH [OF rest sn])
  also have "\<dots> = Inr ((replayFields s (e # es))\<lparr>eventsSinceSnapshot := eventsSinceSnapshot s @ e # es\<rparr>)"
    by simp
  finally show ?case .
qed

lemma rollback_rebuilds_fields:
  assumes sn: "snapshot s = Some sn"
    and rej: "isFailed rej"
    and wf: "list_all domainEvent (eventsSinceSnapshot s)"
    and pending: "rejectCorrelation rej (uncommittedEvents s) \<noteq> []"
  shows "initializeState [rej] False s =
           Inr ((replayFields
                   (s\<lparr>ideaId := JUndefined, title := snap_title sn,
                      description := snap_description sn, tags := snap_tags sn\<rparr>)
                   (rejectCorrelation rej (eventsSinceSnapshot s)))
                \<lparr>eventsSinceSnapshot :=
                   rejectCorrelation rej (eventsSinceSnapshot s) @
                   rejectCorrelation rej (eventsSinceSnapshot s),
                 uncommittedEvents := rejectCorrelation rej (uncommittedEvents s)\<rparr>)"
proof -
  let ?L = "rejectCorrelation rej (eventsSinceSnapshot s)"
  let ?Q = "rejectCorrelation rej (uncommittedEvents s)"
  let ?s1 = "s\<lparr>uncommittedEvents := ?Q\<rparr>"
  let ?s2 = "?s1\<lparr>eventsSinceSnapshot := ?L, ideaId := JUndefined, title := snap_title sn,
                  description := snap_description sn, tags := snap_tags sn\<rparr>"
  have wf': "list_all domainEvent ?L"
    using wf by (simp add: rejectCorrelation_def list_all_iff)
  have rec: "reconstructFromSnapshot (?s1\<lparr>eventsSinceSnapshot := ?L\<rparr>) = Inr ?s2"
    using sn by (simp add: reconstructFromSnapshot_def)
  have "processFailedEvent rej ?s1 = initializeState ?L True ?s2"
    by (simp add: processFailedEvent.simps rec)
  also have "\<dots> = Inr ((replayFields ?s2 ?L)\<lparr>eventsSinceSnapshot := ?L @ ?L\<rparr>)"
    using replay_domainEvents [OF wf', of ?s2 sn] sn by simp
  finally have pf: "processFailedEvent rej ?s1 =
      Inr ((replayFields ?s2 ?L)\<lparr>eventsSinceSnapshot := ?L @ ?L\<rparr>)" .
  have d: "dispatch rej ?s1 = processFailedEvent rej ?s1"
    using rej by (auto simp: isFailed_def dispatch.simps)
  have "initializeState [rej] False s =
      Inr ((replayFields ?s2 ?L)\<lparr>eventsSinceSnapshot := ?L @ ?L\<rparr>)"
    using pending by (simp add: initializeState.simps d pf)
  also have "?s2 = (s\<lparr>ideaId := JUndefined, title := snap_title sn,
                      description := snap_description sn, tags := snap_tags sn\<rparr>)
                   \<lparr>eventsSinceSnapshot := ?L, uncommittedEvents := ?Q\<rparr>"
    by simp
  also have "(replayFields \<dots> ?L)\<lparr>eventsSinceSnapshot := ?L @ ?L\<rparr> =
      (replayFields (s\<lparr>ideaId := JUndefined, title := snap_title sn,
                      description := snap_description sn, tags := snap_tags sn\<rparr>) ?L)
        \<lparr>eventsSinceSnapshot := ?L @ ?L, uncommittedEvents := ?Q\<rparr>"
    by (simp only: replayFields_queue replayFields_log) simp
  finally show ?thesis .
qed

section \<open>Claims\<close>

text \<open>
  C1 (rollback correctness). The claim: with a snapshot and pending local events E1 and
  E2, reconciling a rejection of E2 leaves the state equal to the snapshot state with the
  shortened log replayed in order. On the code the title, description and tags come out
  so (\<open>rollback_rebuilds_fields\<close>), but the identifier does not: \<^verbatim>\<open>createSnapshot\<close>
  stores it as \<^verbatim>\<open>id\<close> and \<^verbatim>\<open>reconstructFromSnapshot\<close> reads
  \<^verbatim>\<open>snapshot.ideaId\<close>. Evaluated on the test
  aggregate after \<^verbatim>\<open>changeTitle("E1")\<close>, a server title event \<open>R\<close>, \<^verbatim>\<open>addTag(7)\<close> and
  the rejection of the tag: the identifier is \<^verbatim>\<open>undefined\<close> where the snapshot held 123.
\<close>

theorem rollback_drops_identifier:
  "map_sum id (\<lambda>s. (ideaId s, title s, description s, tags s))
     (andThen
        (andThen
           (andThen (changeTitle (JStr ''E1'') testIdea)
              (initializeState [serverTitleEvent ''R'' None] False))
           (addTag (JNum 7)))
        (initializeState [serverRejection FailedThatTagWasAddedToAnIdea ''my-ref-7''] False))
     = Inr (JUndefined, JStr ''R'', JUndefined, [])"
  by (simp add: model_defs)

text \<open>
  C2 (discard is not a rollback). The claim: when the queue is observed empty and the
  snapshot is discarded, identifier, title, description and tags stay as they are. On
  the code \<^verbatim>\<open>allEventsCommited\<close> first calls \<^verbatim>\<open>reconstructFromSnapshot\<close>: after
  \<^verbatim>\<open>changeTitle("New title")\<close> the title is \<open>New title\<close>, and discarding puts back
  \<open>1st idea\<close>; likewise when the server confirms every pending event, as in the test
  that passes \<^verbatim>\<open>idea.uncommittedEvents\<close> back to \<^verbatim>\<open>initializeState\<close>.
\<close>

theorem discard_restores_snapshot_state:
  "map_sum id (\<lambda>s. (ideaId s, title s, tags s))
     (andThen (changeTitle (JStr ''New title'') testIdea) Inr)
     = Inr (JNum 123, JStr ''New title'', []) \<and>
   map_sum id (\<lambda>s. (ideaId s, title s, tags s))
     (andThen (changeTitle (JStr ''New title'') testIdea) allEventsCommited)
     = Inr (JUndefined, JStr ''1st idea'', []) \<and>
   map_sum id (\<lambda>s. (ideaId s, title s, tags s))
     (andThen (andThen (changeTitle (JStr ''New title'') testIdea) (addTag (JNum 1234)))
        (\<lambda>s. initializeState (uncommittedEvents s) False s))
     = Inr (JUndefined, JStr ''1st idea'', [])"
  by (simp add: model_defs)

text \<open>
  C3 (replay is read-only against the log). The claim: the replay after a rejection
  appends nothing to the uncommitted queue and nothing to the log. On the code the queue
  is indeed left alone, but every replayed event passes through \<^verbatim>\<open>recordThat\<close> again:
  after \<^verbatim>\<open>addTag(1)\<close>, \<^verbatim>\<open>changeTitle("X")\<close> and the rejection of the title change the
  log holds the tag event twice, and a second rejected title change then replays it
  twice, leaving tag 1 in the tags twice.
\<close>

theorem replay_logs_events_again:
  "map_sum id eventsSinceSnapshot
     (andThen (andThen (addTag (JNum 1) testIdea) (changeTitle (JStr ''X'')))
        (initializeState [serverRejection FailedThatIdeaTitleWasChanged ''my-ref-titleX''] False))
     = Inr [tagAddedEvent (JNum 123) (JNum 1), tagAddedEvent (JNum 123) (JNum 1)] \<and>
   map_sum id uncommittedEvents
     (andThen (andThen (addTag (JNum 1) testIdea) (changeTitle (JStr ''X'')))
        (initializeState [serverRejection FailedThatIdeaTitleWasChanged ''my-ref-titleX''] False))
     = Inr [tagAddedEvent (JNum 123) (JNum 1)] \<and>
   map_sum id tags
     (andThen
        (andThen
           (andThen (andThen (addTag (JNum 1) testIdea) (changeTitle (JStr ''X'')))
              (initializeState
                 [serverRejection FailedThatIdeaTitleWasChanged ''my-ref-titleX''] False))
           (changeTitle (JStr ''Y'')))
        (initializeState [serverRejection FailedThatIdeaTitleWasChanged ''my-ref-titleY''] False))
     = Inr [JNum 1, JNum 1]"
  by (simp add: model_defs)

text \<open>
  C4 (unknown-correlation rejections are skipped). The claim: a rejection whose
  correlation id matches nothing held locally raises no error and changes nothing. On
  the code such a rejection still reaches \<^verbatim>\<open>reconstructFromSnapshot\<close>, which reads a
  property of \<^verbatim>\<open>this.snapshot\<close> without the check that \<^verbatim>\<open>allEventsCommited\<close> makes:
  on the fresh test aggregate it throws, and so does the second delivery of a rejection
  whose first delivery was processed and discarded the snapshot.
\<close>

theorem unknown_rejection_raises:
  "initializeState [serverRejection FailedThatIdeaTitleWasChanged ''my-ref-titleX''] False testIdea
     = Inl TypeError \<and>
   map_sum id (\<lambda>s. (snapshot s, uncommittedEvents s))
     (andThen (changeTitle (JStr ''X'') testIdea)
        (initializeState [serverRejection FailedThatIdeaTitleWasChanged ''my-ref-titleX''] False))
     = Inr (None, []) \<and>
   andThen
     (andThen (changeTitle (JStr ''X'') testIdea)
        (initializeState [serverRejection FailedThatIdeaTitleWasChanged ''my-ref-titleX''] False))
     (initializeState [serverRejection FailedThatIdeaTitleWasChanged ''my-ref-titleX''] False)
     = Inl TypeError"
  by (simp add: model_defs)

text \<open>
  C5 (tag insertion is idempotent), as stated, fails: \<^verbatim>\<open>addTag(1)\<close> twice on the test
  aggregate leaves the tags \<open>[1, 1]\<close>.
\<close>

theorem tag_added_twice_counterexample:
  "map_sum id tags (andThen (addTag (JNum 1) testIdea) (addTag (JNum 1)))
     = Inr [JNum 1, JNum 1]"
  by (simp add: model_defs)

text \<open>
  C5, amended. Tag insertion appends: for every tag id \<open>x\<close> and every state,
  \<^verbatim>\<open>addTag(x)\<close> raises no error and pushes \<open>x\<close> onto the tags, so applying it twice
  (or applying a \<^verbatim>\<open>TagWasAddedToAnIdea\<close> event carrying \<open>x\<close> twice) adds two
  occurrences of \<open>x\<close>; a tag already present is neither refused nor merged.
\<close>

theorem tag_insertion_appends:
  "(\<exists>s1 s2. addTag x s = Inr s1 \<and> addTag x s1 = Inr s2 \<and>
             tags s2 = tags s @ [x, x] \<and>
             count_list (tags s2) x = count_list (tags s) x + 2) \<and>
   (\<forall>(e::event) d. etype e = TagWasAddedToAnIdea \<longrightarrow> data e = Some d \<longrightarrow>
      (\<exists>s1 s2. dispatch e s = Inr s1 \<and> dispatch e s1 = Inr s2 \<and>
                tags s2 = tags s @ [d_tagId d, d_tagId d] \<and>
                count_list (tags s2) (d_tagId d) = count_list (tags s) (d_tagId d) + 2))"
proof (intro conjI allI impI)
  obtain s1 where 1: "addTag x s = Inr s1" by (simp add: addTag_result)
  obtain s2 where 2: "addTag x s1 = Inr s2" by (simp add: addTag_result)
  have t: "tags s2 = tags s @ [x, x]"
    using addTag_queue(3) [OF 1] addTag_queue(3) [OF 2] by simp
  then have "count_list (tags s2) x = count_list (tags s) x + 2" by simp
  with 1 2 t show "\<exists>s1 s2. addTag x s = Inr s1 \<and> addTag x s1 = Inr s2 \<and>
             tags s2 = tags s @ [x, x] \<and>
             count_list (tags s2) x = count_list (tags s) x + 2"
    by (intro exI [of _ s1] exI [of _ s2] conjI)
next
  fix e :: event and d :: edata
  assume ty: "etype e = TagWasAddedToAnIdea" and d: "data e = Some d"
  have step: "\<And>s. dispatch e s = Inr (recordThat e (s\<lparr>tags := tags s @ [d_tagId d]\<rparr>))"
    using ty d by (simp add: dispatch.simps applyTagWasAddedToAnIdea_def)
  define s1 where "s1 = recordThat e (s\<lparr>tags := tags s @ [d_tagId d]\<rparr>)"
  define s2 where "s2 = recordThat e (s1\<lparr>tags := tags s1 @ [d_tagId d]\<rparr>)"
  have t: "tags s2 = tags s @ [d_tagId d, d_tagId d]" by (simp add: s1_def s2_def)
  then have "count_list (tags s2) (d_tagId d) = count_list (tags s) (d_tagId d) + 2" by simp
  with t step [of s] step [of s1]
  show "\<exists>s1 s2. dispatch e s = Inr s1 \<and> dispatch e s1 = Inr s2 \<and>
                tags s2 = tags s @ [d_tagId d, d_tagId d] \<and>
                count_list (tags s2) (d_tagId d) = count_list (tags s) (d_tagId d) + 2"
    unfolding s1_def [symmetric] s2_def [symmetric]
    by (intro exI [of _ s1] exI [of _ s2] conjI)
qed

theorem tag_insertion_appends_witness:
  "etype (tagAddedEvent (JNum 123) (JNum 3)) = TagWasAddedToAnIdea \<and>
   (\<exists>d s1 s2. data (tagAddedEvent (JNum 123) (JNum 3)) = Some d \<and>
      dispatch (tagAddedEvent (JNum 123) (JNum 3)) testIdea = Inr s1 \<and>
      dispatch (tagAddedEvent (JNum 123) (JNum 3)) s1 = Inr s2 \<and>
      tags s2 = [JNum 3, JNum 3])"
proof -
  let ?e = "tagAddedEvent (JNum 123) (JNum 3)"
  let ?d = "\<lparr>d_ideaId = JNum 123, d_title = JUndefined, d_description = JUndefined,
             d_tagId = JNum 3\<rparr>"
  have ty: "etype ?e = TagWasAddedToAnIdea" and d: "data ?e = Some ?d"
    by (simp_all add: tagAddedEvent_def)
  from tag_insertion_appends [of "JNum 3" testIdea] ty d
  obtain s1 s2 where "dispatch ?e testIdea = Inr s1" "dispatch ?e s1 = Inr s2"
    "tags s2 = tags testIdea @ [d_tagId ?d, d_tagId ?d]"
    by blast
  then have "\<exists>d s1 s2. data ?e = Some d \<and> dispatch ?e testIdea = Inr s1 \<and>
      dispatch ?e s1 = Inr s2 \<and> tags s2 = [JNum 3, JNum 3]"
    using d by (intro exI [of _ ?d] exI [of _ s1] exI [of _ s2] conjI)
               (simp_all add: testIdea_def Idea_def)
  with ty show ?thesis by (intro conjI)
qed

text \<open>
  C6 (identifier immutability). The claim: taking a snapshot, rolling back from it and
  replaying the log leave \<^verbatim>\<open>ideaId\<close> equal to the identifier held when the snapshot was
  taken. On the code the snapshot keeps the identifier under \<^verbatim>\<open>id\<close>, the rollback
  assigns \<^verbatim>\<open>this.snapshot.ideaId\<close>, and the identifier 123 of the test aggregate is
  \<^verbatim>\<open>undefined\<close> after a rejected title change.
\<close>

theorem rollback_forgets_identifier:
  "ideaId testIdea = JNum 123 \<and>
   map_sum id snap_id (case snapshot (createSnapshot testIdea) of
                         None \<Rightarrow> Inl TypeError | Some sn \<Rightarrow> Inr sn) = Inr (JNum 123) \<and>
   map_sum id ideaId (reconstructFromSnapshot (createSnapshot testIdea)) = Inr JUndefined \<and>
   map_sum id ideaId
     (andThen (changeTitle (JStr ''This title will fail'') testIdea)
        (initializeState
           [serverRejection FailedThatIdeaTitleWasChanged ''my-ref-titleThis title will fail'']
           False))
     = Inr JUndefined"
  by (simp add: model_defs)

text \<open>
  C7 (discard timing), as stated, fails. The batch confirms the only pending title change
  and then carries a server title event \<open>B\<close>. Once the handler of the first event has
  run, the queue is empty and \<^verbatim>\<open>allEventsCommited\<close> discards the snapshot; the rest of
  the batch is reconciled from that state, so the second event is applied without a
  snapshot and is not logged.
\<close>

theorem discard_between_events_counterexample:
  "changeTitle (JStr ''A'') testIdea = Inr titlePending \<and>
   snapshot titlePending \<noteq> None \<and>
   dispatch (serverTitleEvent ''A'' (Some ''my-ref-titleA''))
     (titlePending
        \<lparr>uncommittedEvents :=
           rejectCorrelation (serverTitleEvent ''A'' (Some ''my-ref-titleA''))
             (uncommittedEvents titlePending)\<rparr>)
     = Inr titleConfirmed \<and>
   allEventsCommited titleConfirmed = Inr titleDiscarded \<and>
   snapshot titleDiscarded = None \<and>
   eventsSinceSnapshot titleDiscarded = [] \<and>
   initializeState
     [serverTitleEvent ''A'' (Some ''my-ref-titleA''), serverTitleEvent ''B'' None] False
     titlePending
     = initializeState [serverTitleEvent ''B'' None] False titleDiscarded \<and>
   initializeState
     [serverTitleEvent ''A'' (Some ''my-ref-titleA''), serverTitleEvent ''B'' None] False
     titlePending
     = Inr (titleDiscarded\<lparr>title := JStr ''B''\<rparr>)"
  by (simp add: model_defs titlePending_def titleConfirmed_def titleDiscarded_def)

text \<open>
  C7, amended. The queue-empty check follows each event of the batch: reconciling a
  batch \<open>xs @ ys\<close> is reconciling \<open>xs\<close> and then \<open>ys\<close>, and whenever the queue is
  empty after a non-empty batch the snapshot has been discarded. So the discard can fall
  between two events of one batch, and later events of that batch are not logged.
\<close>

theorem discard_checked_after_each_event:
  "initializeState (xs @ ys) False s =
     andThen (initializeState xs False s) (initializeState ys False) \<and>
   (\<forall>s'. xs \<noteq> [] \<longrightarrow> initializeState xs False s = Inr s' \<longrightarrow>
         uncommittedEvents s' = [] \<longrightarrow> snapshot s' = None)"
proof (intro conjI allI impI)
  show "initializeState (xs @ ys) False s =
     andThen (initializeState xs False s) (initializeState ys False)"
    by (rule initializeState_append)
next
  fix s' assume ne: "xs \<noteq> []" and r: "initializeState xs False s = Inr s'"
    and q: "uncommittedEvents s' = []"
  from ne obtain zs e where xs: "xs = zs @ [e]" by (metis rev_exhaust)
  from r obtain sm where "initializeState zs False s = Inr sm"
    and l: "initializeState [e] False sm = Inr s'"
    unfolding xs initializeState_append by (cases "initializeState zs False s") auto
  from singleton_batch_discards [OF l q] show "snapshot s' = None" .
qed

theorem discard_checked_after_each_event_witness:
  "\<exists>s0 s'.
     changeTitle (JStr ''A'') testIdea = Inr s0 \<and>
     [serverTitleEvent ''A'' (Some ''my-ref-titleA'')] \<noteq> [] \<and>
     initializeState [serverTitleEvent ''A'' (Some ''my-ref-titleA'')] False s0 = Inr s' \<and>
     uncommittedEvents s' = [] \<and> snapshot s' = None"
proof -
  let ?e = "serverTitleEvent ''A'' (Some ''my-ref-titleA'')"
  have "\<exists>s0 s'. changeTitle (JStr ''A'') testIdea = Inr s0 \<and>
          initializeState [?e] False s0 = Inr s' \<and> uncommittedEvents s' = []"
    by (simp add: model_defs)
  then obtain s0 s' where 0: "changeTitle (JStr ''A'') testIdea = Inr s0"
    and 1: "initializeState [?e] False s0 = Inr s'" and 2: "uncommittedEvents s' = []"
    by blast
  have ne: "[?e] \<noteq> []" by simp
  from discard_checked_after_each_event [of "[?e]" "[]" s0] ne 1 2
  have "snapshot s' = None" by blast
  with 0 ne 1 2 show ?thesis by (intro exI [of _ s0] exI [of _ s'] conjI)
qed

text \<open>
  C8 (literal logging scenario). From the aggregate titled \<open>1st idea\<close>,
  \<^verbatim>\<open>changeTitle("Awesome idea")\<close> makes the snapshot non-null; reconciling one title
  event whose correlation id matches no pending entry and then calling \<^verbatim>\<open>addTag(1)\<close>
  leaves a log of exactly three entries (the local title change, the remote event, the
  local tag) and the snapshot still non-null.
\<close>

theorem literal_logging_scenario:
  assumes ty: "etype ev = IdeaTitleWasChanged" and d: "data ev = Some d"
    and c: "correlationId ev \<noteq> Some ''my-ref-titleAwesome idea''"
  shows "\<exists>s1 s2 s3.
           changeTitle (JStr ''Awesome idea'') (Idea i (JStr ''1st idea'') dsc) = Inr s1 \<and>
           snapshot s1 \<noteq> None \<and>
           initializeState [ev] False s1 = Inr s2 \<and>
           addTag (JNum 1) s2 = Inr s3 \<and>
           length (eventsSinceSnapshot s3) = 3 \<and>
           eventsSinceSnapshot s3 =
             [titleChangedEvent i (JStr ''Awesome idea''), ev, tagAddedEvent i (JNum 1)] \<and>
           snapshot s3 \<noteq> None"
proof -
  let ?s0 = "Idea i (JStr ''1st idea'') dsc"
  let ?E = "titleChangedEvent i (JStr ''Awesome idea'')"
  let ?snap = "\<lparr>snap_id = i, snap_title = JStr ''1st idea'', snap_description = dsc,
                snap_tags = []\<rparr>"
  define s1 where "s1 =
    \<lparr>snapshot = Some ?snap, eventsSinceSnapshot = [?E], uncommittedEvents = [?E],
     ideaId = i, title = JStr ''Awesome idea'', description = dsc, tags = []\<rparr>"
  define s2 where "s2 = s1\<lparr>eventsSinceSnapshot := [?E, ev], title := d_title d\<rparr>"
  define s3 where "s3 = s2\<lparr>eventsSinceSnapshot := [?E, ev, tagAddedEvent i (JNum 1)],
                            uncommittedEvents := [?E, tagAddedEvent i (JNum 1)],
                            tags := [JNum 1]\<rparr>"
  have 1: "changeTitle (JStr ''Awesome idea'') ?s0 = Inr s1"
    by (simp add: changeTitle_result s1_def Idea_def createSnapshot_def recordThat_def)
  have c': "correlationId ?E \<noteq> correlationId ev"
    using c by (auto simp: titleChangedEvent_def)
  have 2: "initializeState [ev] False s1 = Inr s2"
    using ty d c'
    by (simp add: initializeState.simps dispatch.simps applyIdeaTitleWasChanged_def
                  rejectCorrelation_def recordThat_def s1_def s2_def)
  have 3: "addTag (JNum 1) s2 = Inr s3"
    by (simp add: addTag_result s1_def s2_def s3_def createSnapshot_def recordThat_def)
  have "snapshot s1 \<noteq> None" "snapshot s3 \<noteq> None"
    "eventsSinceSnapshot s3 = [?E, ev, tagAddedEvent i (JNum 1)]"
    by (simp_all add: s1_def s2_def s3_def)
  with 1 2 3 show ?thesis
    by (intro exI [of _ s1] exI [of _ s2] exI [of _ s3] conjI) simp_all
qed

theorem literal_logging_scenario_witness:
  "\<exists>s1 s2 s3.
     changeTitle (JStr ''Awesome idea'') testIdea = Inr s1 \<and> snapshot s1 \<noteq> None \<and>
     initializeState [serverTitleEvent ''Title from server'' None] False s1 = Inr s2 \<and>
     addTag (JNum 1) s2 = Inr s3 \<and>
     length (eventsSinceSnapshot s3) = 3 \<and> snapshot s3 \<noteq> None"
proof -
  let ?ev = "serverTitleEvent ''Title from server'' None"
  have ty: "etype ?ev = IdeaTitleWasChanged"
    and d: "data ?ev = Some \<lparr>d_ideaId = JUndefined, d_title = JStr ''Title from server'',
                             d_description = JUndefined, d_tagId = JUndefined\<rparr>"
    and c: "correlationId ?ev \<noteq> Some ''my-ref-titleAwesome idea''"
    by (simp_all add: serverTitleEvent_def)
  from literal_logging_scenario [OF ty d c, of "JNum 123" JUndefined]
  show ?thesis unfolding testIdea_def by blast
qed

text \<open>
  C9 (shared correlation ids collapse). Two pending local events produced by the same
  command with the same argument carry the same correlation id
  (\<^verbatim>\<open>"my-ref-title" + title\<close>, \<^verbatim>\<open>"my-ref-" + tagId\<close>), and reconciling one batch event
  that bears this id removes both of them from the uncommitted queue at once.
\<close>

theorem shared_correlation_collapse:
  assumes cmds:
    "(changeTitle x s = Inr s1 \<and> changeTitle x s1 = Inr s2 \<and> c = ''my-ref-title'' @ jsToString x) \<or>
     (addTag x s = Inr s1 \<and> addTag x s1 = Inr s2 \<and> c = ''my-ref-'' @ jsToString x)"
    and ev: "correlationId ev = Some c"
    and batch: "initializeState [ev] False s2 = Inr s3"
  shows "\<exists>e1 e2. uncommittedEvents s2 = uncommittedEvents s @ [e1, e2] \<and>
           correlationId e1 = Some c \<and> correlationId e2 = Some c \<and>
           e1 \<notin> set (uncommittedEvents s3) \<and> e2 \<notin> set (uncommittedEvents s3) \<and>
           uncommittedEvents s3 = rejectCorrelation ev (uncommittedEvents s)"
proof -
  have q3: "uncommittedEvents s3 = rejectCorrelation ev (uncommittedEvents s2)"
    using singleton_batch_queue [OF batch] .
  from cmds obtain e1 e2 where q2: "uncommittedEvents s2 = uncommittedEvents s @ [e1, e2]"
    and c1: "correlationId e1 = Some c" and c2: "correlationId e2 = Some c"
  proof
    assume h: "changeTitle x s = Inr s1 \<and> changeTitle x s1 = Inr s2 \<and> c = ''my-ref-title'' @ jsToString x"
    then have "uncommittedEvents s2 =
        uncommittedEvents s @ [titleChangedEvent (ideaId s) x, titleChangedEvent (ideaId s1) x]"
      using changeTitle_queue(1) [of x s s1] changeTitle_queue(1) [of x s1 s2] by simp
    with h that show ?thesis by simp
  next
    assume h: "addTag x s = Inr s1 \<and> addTag x s1 = Inr s2 \<and> c = ''my-ref-'' @ jsToString x"
    then have "uncommittedEvents s2 =
        uncommittedEvents s @ [tagAddedEvent (ideaId s) x, tagAddedEvent (ideaId s1) x]"
      using addTag_queue(1) [of x s s1] addTag_queue(1) [of x s1 s2] by simp
    with h that show ?thesis by simp
  qed
  have n1: "e1 \<notin> set (uncommittedEvents s3)"
    using c1 c2 ev by (simp add: q3 q2 rejectCorrelation_def)
  have n2: "e2 \<notin> set (uncommittedEvents s3)"
    using c1 c2 ev by (simp add: q3 q2 rejectCorrelation_def)
  have q3': "uncommittedEvents s3 = rejectCorrelation ev (uncommittedEvents s)"
    using c1 c2 ev by (simp add: q3 q2 rejectCorrelation_def)
  from q2 c1 c2 n1 n2 q3' show ?thesis
    by (intro exI [of _ e1] exI [of _ e2] conjI)
qed

theorem shared_correlation_collapse_witness:
  "\<exists>s1 s2 s3.
     changeTitle (JStr ''A'') testIdea = Inr s1 \<and> changeTitle (JStr ''A'') s1 = Inr s2 \<and>
     initializeState [serverTitleEvent ''A'' (Some ''my-ref-titleA'')] False s2 = Inr s3 \<and>
     map correlationId (uncommittedEvents s2) = [Some ''my-ref-titleA'', Some ''my-ref-titleA''] \<and>
     uncommittedEvents s3 = []"
proof -
  have "\<exists>s1 s2 s3.
     changeTitle (JStr ''A'') testIdea = Inr s1 \<and> changeTitle (JStr ''A'') s1 = Inr s2 \<and>
     initializeState [serverTitleEvent ''A'' (Some ''my-ref-titleA'')] False s2 = Inr s3"
    by (simp add: model_defs)
  then obtain s1 s2 s3 where
    1: "changeTitle (JStr ''A'') testIdea = Inr s1" and 2: "changeTitle (JStr ''A'') s1 = Inr s2" and
    3: "initializeState [serverTitleEvent ''A'' (Some ''my-ref-titleA'')] False s2 = Inr s3"
    by blast
  have ev: "correlationId (serverTitleEvent ''A'' (Some ''my-ref-titleA'')) = Some ''my-ref-titleA''"
    by (simp add: serverTitleEvent_def)
  have cmds: "(changeTitle (JStr ''A'') testIdea = Inr s1 \<and> changeTitle (JStr ''A'') s1 = Inr s2 \<and>
       ''my-ref-titleA'' = ''my-ref-title'' @ jsToString (JStr ''A'')) \<or>
     (addTag (JStr ''A'') testIdea = Inr s1 \<and> addTag (JStr ''A'') s1 = Inr s2 \<and>
       ''my-ref-titleA'' = ''my-ref-'' @ jsToString (JStr ''A''))"
    using 1 2 by simp
  from shared_correlation_collapse [OF cmds ev 3]
  obtain e1 e2 where "uncommittedEvents s2 = uncommittedEvents testIdea @ [e1, e2]"
    "correlationId e1 = Some ''my-ref-titleA''" "correlationId e2 = Some ''my-ref-titleA''"
    "uncommittedEvents s3 = rejectCorrelation (serverTitleEvent ''A'' (Some ''my-ref-titleA'')) (uncommittedEvents testIdea)"
    by blast
  then have "map correlationId (uncommittedEvents s2) = [Some ''my-ref-titleA'', Some ''my-ref-titleA'']"
    "uncommittedEvents s3 = []"
    by (simp_all add: testIdea_def Idea_def rejectCorrelation_def)
  with 1 2 3 show ?thesis by (intro exI [of _ s1] exI [of _ s2] exI [of _ s3] conjI)
qed

text \<open>
  C10 (unrelated remote events never drain the queue). Every entry that
  \<^verbatim>\<open>changeTitle\<close> or \<^verbatim>\<open>addTag\<close> enqueues carries a non-empty string as correlation id,
  and a batch event without a \<^verbatim>\<open>correlationId\<close> removes no such entry: the removal step
  returns the queue as it was, and so does the whole reconciliation of such a batch.
\<close>

theorem unrelated_events_never_drain:
  assumes cmd: "cmd = changeTitle \<or> cmd = addTag"
    and q: "\<forall>ue\<in>set (uncommittedEvents s). \<exists>c. correlationId ue = Some c \<and> c \<noteq> []"
    and b: "\<forall>e\<in>set batch. correlationId e = None"
  shows "\<exists>s1 e c.
           cmd x s = Inr s1 \<and>
           uncommittedEvents s1 = uncommittedEvents s @ [e] \<and>
           correlationId e = Some c \<and> c \<noteq> [] \<and>
           (\<forall>ue\<in>set (uncommittedEvents s1). \<exists>c. correlationId ue = Some c \<and> c \<noteq> []) \<and>
           (\<forall>ev\<in>set batch. rejectCorrelation ev (uncommittedEvents s1) = uncommittedEvents s1) \<and>
           (\<forall>s2. initializeState batch False s1 = Inr s2 \<longrightarrow>
                 uncommittedEvents s2 = uncommittedEvents s1)"
proof -
  from cmd obtain s1 e c where r: "cmd x s = Inr s1"
    and q1: "uncommittedEvents s1 = uncommittedEvents s @ [e]"
    and c: "correlationId e = Some c" "c \<noteq> []"
  proof
    assume "cmd = changeTitle"
    then show ?thesis
      using that [of _ "titleChangedEvent (ideaId s) x" "''my-ref-title'' @ jsToString x"]
      by (simp add: changeTitle_result)
  next
    assume "cmd = addTag"
    then show ?thesis
      using that [of _ "tagAddedEvent (ideaId s) x" "''my-ref-'' @ jsToString x"]
      by (simp add: addTag_result)
  qed
  have inv: "\<forall>ue\<in>set (uncommittedEvents s1). \<exists>c. correlationId ue = Some c \<and> c \<noteq> []"
    using q c by (simp add: q1)
  then have some: "\<forall>ue\<in>set (uncommittedEvents s1). correlationId ue \<noteq> None" by auto
  have rej: "\<forall>ev\<in>set batch. rejectCorrelation ev (uncommittedEvents s1) = uncommittedEvents s1"
    using some b by (auto simp: rejectCorrelation_def filter_id_conv)
  have fr: "\<forall>s2. initializeState batch False s1 = Inr s2 \<longrightarrow>
                 uncommittedEvents s2 = uncommittedEvents s1"
    using batch_without_correlation_queue [OF some b] by blast
  from r q1 c inv rej fr show ?thesis
    by (intro exI [of _ s1] exI [of _ e] exI [of _ c] conjI)
qed

theorem unrelated_events_never_drain_witness:
  "\<exists>s1 s2.
     addTag (JNum 1) testIdea = Inr s1 \<and>
     initializeState [serverTitleEvent ''Title from server'' None] False s1 = Inr s2 \<and>
     map correlationId (uncommittedEvents s1) = [Some ''my-ref-1''] \<and>
     uncommittedEvents s2 = uncommittedEvents s1"
proof -
  have "\<exists>s1 s2. addTag (JNum 1) testIdea = Inr s1 \<and>
     initializeState [serverTitleEvent ''Title from server'' None] False s1 = Inr s2"
    by (simp add: model_defs)
  then obtain s1 s2 where 1: "addTag (JNum 1) testIdea = Inr s1"
    and 2: "initializeState [serverTitleEvent ''Title from server'' None] False s1 = Inr s2"
    by blast
  have q: "\<forall>ue\<in>set (uncommittedEvents testIdea). \<exists>c. correlationId ue = Some c \<and> c \<noteq> []"
    by (simp add: testIdea_def Idea_def)
  have b: "\<forall>e\<in>set [serverTitleEvent ''Title from server'' None]. correlationId e = None"
    by (simp add: serverTitleEvent_def)
  from unrelated_events_never_drain [of addTag testIdea _ "JNum 1", OF _ q b] 1
  obtain e c where "uncommittedEvents s1 = uncommittedEvents testIdea @ [e]"
    "correlationId e = Some c"
    "\<forall>s2. initializeState [serverTitleEvent ''Title from server'' None] False s1 = Inr s2 \<longrightarrow>
                 uncommittedEvents s2 = uncommittedEvents s1"
    by auto
  with 2 have "uncommittedEvents s2 = uncommittedEvents s1" by blast
  moreover have "map correlationId (uncommittedEvents s1) = [Some ''my-ref-1'']"
    using 1 by (auto simp: addTag_result showInt_def showNat.simps testIdea_def Idea_def)
  ultimately show ?thesis using 1 2 by (intro exI [of _ s1] exI [of _ s2] conjI)
qed

end
